theory Spec2Isabelle
  imports Main "HOL-Library.AList" "HOL-Library.Sublist" "HOL-Library.Extended_Nat"
begin

section \<open>Data model\<close>

text \<open>
  The embedding follows \<^verbatim>\<open>src/lib/util/removeUnusedExport.ts\<close>. JavaScript strings are
  \<^typ>\<open>string\<close>, source positions are \<^typ>\<open>nat\<close>, a \<^verbatim>\<open>Map\<close> is an association list in
  insertion order (looked up with \<^const>\<open>map_of\<close>) and a \<^verbatim>\<open>Set\<close> is the list of its
  members in insertion order.
\<close>

text \<open>\<^verbatim>\<open>ts.TextChange\<close>: the replacement text and the span \<^verbatim>\<open>{start, length}\<close> it replaces.\<close>

datatype TextChange =
  TextChange (newText: string) (span_start: nat) (span_length: nat)

text \<open>
  The \<^verbatim>\<open>change\<close> field of an export item: \<^verbatim>\<open>code\<close>, \<^verbatim>\<open>span\<close> and, for functions,
  \<^verbatim>\<open>isUnnamedDefaultExport\<close> (an absent property reads as false).
\<close>

datatype ItemChange =
  ItemChange (change_code: string) (change_start: nat) (change_length: nat)
    (isUnnamedDefaultExport: bool)

text \<open>
  The export items that \<^verbatim>\<open>parseFile\<close> returns, one constructor for each case of the
  decision switch of \<^verbatim>\<open>processFile\<close>. The fields are \<^verbatim>\<open>name\<close>, \<^verbatim>\<open>change\<close>,
  \<^verbatim>\<open>start\<close> and \<^verbatim>\<open>skip\<close>; the boolean of every constructor is the value of
  \<^verbatim>\<open>'skip' in v && v.skip\<close>. \<open>ExportDeclarationOther\<close> is an export declaration whose
  \<^verbatim>\<open>type\<close> tag is none of \<^verbatim>\<open>'named'\<close>, \<^verbatim>\<open>'namespace'\<close>, \<^verbatim>\<open>'whole'\<close>, and
  \<open>OtherKind\<close> is an item whose \<^verbatim>\<open>kind\<close> is none of the seven syntax kinds of the
  switch: the values that reach the two \<^verbatim>\<open>default\<close> branches.
\<close>

datatype ExportItem =
    VariableStatement "string list" ItemChange nat bool
  | FunctionDeclaration string ItemChange nat bool
  | InterfaceDeclaration string ItemChange nat bool
  | TypeAliasDeclaration string ItemChange nat bool
  | ExportAssignment ItemChange nat bool
  | ExportDeclarationNamed "string list" ItemChange nat bool
  | ExportDeclarationNamespace bool
  | ExportDeclarationWhole bool
  | ExportDeclarationOther string bool
  | ClassDeclaration string ItemChange nat bool
  | OtherKind nat bool

text \<open>An entry of \<^verbatim>\<open>logs\<close>, returned as \<^verbatim>\<open>removedExports\<close>.\<close>

datatype RemovedExport =
  RemovedExport (fileName: string) (position: nat) (code: string)

text \<open>The value \<^verbatim>\<open>processFile\<close> returns: \<^verbatim>\<open>{operation: 'delete'}\<close> or
  \<^verbatim>\<open>{operation: 'edit', content, removedExports}\<close>.\<close>

datatype ProcessResult =
    OpDelete
  | OpEdit string "RemovedExport list"

text \<open>\<^verbatim>\<open>throw new Error(`unexpected: ...`)\<close> of the two \<^verbatim>\<open>default\<close> branches.\<close>

datatype error = Unexpected

text \<open>
  A vertex of the dependency graph: \<^verbatim>\<open>to\<close>, \<^verbatim>\<open>from\<close>, \<^verbatim>\<open>data.depth\<close> (a number
  or \<^verbatim>\<open>Infinity\<close>) and \<^verbatim>\<open>data.wholeReexportSpecifier\<close>.
\<close>

datatype Vertex =
  Vertex (vertex_to: "string list") (vertex_from: "string list") (depth: enat)
    (wholeReexportSpecifier: "(string \<times> string) list")

type_synonym Vertexes = "(string \<times> Vertex) list"

type_synonym Files = "(string \<times> string) list"

datatype FixId = fixIdDelete | fixIdDeleteImports

text \<open>
  A top-level child of the source file that \<^verbatim>\<open>ts.createSourceFile\<close> returns, with what
  \<^verbatim>\<open>removeWholeExportSpecifier\<close> reads of it.
\<close>

datatype ModuleSpecifier = NoSpecifier | StringLiteral string | OtherExpression

datatype Node =
  Node (isExportDeclaration: bool) (moduleSpecifier: ModuleSpecifier) (exportClause: bool)
    (getFullStart: nat) (getFullWidth: nat) (getStart: nat) (getText: string)

text \<open>
  The functions that \<^verbatim>\<open>removeUnusedExport.ts\<close> calls and that are defined in other
  modules or in the TypeScript compiler are parameters of the model, with the compiler
  options and the project root fixed inside them. \<open>createSourceFile\<close> gives the nodes
  that \<^verbatim>\<open>sourceFile.forEachChild\<close> visits; \<open>applyCodeFix\<close> takes the fix, the file name
  and the content the language service reads for that file.
\<close>

record Env =
  findFileUsage :: "string \<Rightarrow> Vertexes \<Rightarrow> Files \<Rightarrow> string list"
  parseFile :: "string \<Rightarrow> string \<Rightarrow> string list \<Rightarrow> ExportItem list"
  applyTextChanges :: "string \<Rightarrow> TextChange list \<Rightarrow> string"
  applyCodeFix :: "FixId \<Rightarrow> string \<Rightarrow> string \<Rightarrow> string"
  stripExportKeyword :: "string \<Rightarrow> string"
  updateExportDeclaration :: "string \<Rightarrow> string list \<Rightarrow> string"
  createSourceFile :: "string \<Rightarrow> Node list"

text \<open>The arguments of \<^verbatim>\<open>removeUnusedExport\<close> that configure a run.\<close>

record Config =
  entrypoints :: "string list"
  deleteUnusedFile :: bool
  enableCodeFix :: bool
  recursive :: bool

definition IGNORE_COMMENT :: string where
  "IGNORE_COMMENT = ''ts-remove-unused-skip''"

text \<open>\<^verbatim>\<open>String.prototype.includes\<close>.\<close>

definition string_includes :: "string \<Rightarrow> string \<Rightarrow> bool" where
  "string_includes s pat = sublist pat s"

section \<open>The module store\<close>

text \<open>
  Modelled from the spec: \<^verbatim>\<open>exists(path)\<close> of the Module Store (\<^verbatim>\<open>FileService\<close> and
  \<^verbatim>\<open>MemoryFileService\<close> are not under src/), the store being a key/value store of
  module path to source text.
\<close>

definition fileService_exists :: "Files \<Rightarrow> string \<Rightarrow> bool" where
  "fileService_exists fs name = (map_of fs name \<noteq> None)"

text \<open>
  Modelled from the spec: \<^verbatim>\<open>get(path)\<close> of the Module Store (not under src/), the text
  stored for the path. It gives a string for every path (the language service host of
  this file passes it on to \<^verbatim>\<open>ts.ScriptSnapshot.fromString\<close>); for a path that is not
  stored the model gives the empty text.
\<close>

definition fileService_get :: "Files \<Rightarrow> string \<Rightarrow> string" where
  "fileService_get fs name = (case map_of fs name of None \<Rightarrow> [] | Some c \<Rightarrow> c)"

text \<open>
  Modelled from the spec: \<^verbatim>\<open>set(path, text)\<close> of the Module Store (not under src/). A
  stored path keeps its place in the list of paths, a new path is added at the end.
\<close>

definition fileService_set :: "Files \<Rightarrow> string \<Rightarrow> string \<Rightarrow> Files" where
  "fileService_set fs name c = AList.update name c fs"

text \<open>Modelled from the spec: \<^verbatim>\<open>delete(path)\<close> of the Module Store (not under src/).\<close>

definition fileService_delete :: "Files \<Rightarrow> string \<Rightarrow> Files" where
  "fileService_delete fs name = AList.delete name fs"

text \<open>
  Modelled from the spec: \<^verbatim>\<open>listPaths()\<close> of the Module Store (not under src/), called
  \<^verbatim>\<open>getFileNames\<close> in the code.
\<close>

definition getFileNames :: "Files \<Rightarrow> string list" where
  "getFileNames fs = map fst fs"

section \<open>processFile\<close>

text \<open>\<^verbatim>\<open>files.get(targetFile) || ''\<close> on the ejected map of the store.\<close>

definition files_get :: "Files \<Rightarrow> string \<Rightarrow> string" where
  "files_get files targetFile = (case map_of files targetFile of None \<Rightarrow> [] | Some c \<Rightarrow> c)"

text \<open>\<^verbatim>\<open>'skip' in v && v.skip\<close>.\<close>

fun item_skip :: "ExportItem \<Rightarrow> bool" where
  "item_skip (VariableStatement _ _ _ skip) = skip"
| "item_skip (FunctionDeclaration _ _ _ skip) = skip"
| "item_skip (InterfaceDeclaration _ _ _ skip) = skip"
| "item_skip (TypeAliasDeclaration _ _ _ skip) = skip"
| "item_skip (ExportAssignment _ _ skip) = skip"
| "item_skip (ExportDeclarationNamed _ _ _ skip) = skip"
| "item_skip (ExportDeclarationNamespace skip) = skip"
| "item_skip (ExportDeclarationWhole skip) = skip"
| "item_skip (ExportDeclarationOther _ skip) = skip"
| "item_skip (ClassDeclaration _ _ _ skip) = skip"
| "item_skip (OtherKind _ skip) = skip"

text \<open>\<^verbatim>\<open>Array.prototype.join\<close> on an array of strings.\<close>

fun join :: "string \<Rightarrow> string list \<Rightarrow> string" where
  "join sep [] = []"
| "join sep [x] = x"
| "join sep (x # y # ys) = x @ sep @ join sep (y # ys)"

text \<open>
  One iteration of \<^verbatim>\<open>exports.forEach\<close>: the switch on \<^verbatim>\<open>item.kind\<close> (and on
  \<^verbatim>\<open>item.type\<close> for an export declaration). The result is what this item pushes on
  \<^verbatim>\<open>changes\<close> and on \<^verbatim>\<open>logs\<close>, or the error a \<^verbatim>\<open>default\<close> branch throws.
\<close>

fun exportItemStep ::
  "Env \<Rightarrow> string \<Rightarrow> string list \<Rightarrow> ExportItem \<Rightarrow> error + (TextChange list \<times> RemovedExport list)"
where
  "exportItemStep env targetFile usage (VariableStatement name change start skip) =
     (if skip \<or> (\<forall>it \<in> set name. it \<in> set usage) then Inr ([], [])
      else Inr ([TextChange [] (change_start change) (change_length change)],
                [RemovedExport targetFile start (join '', '' name)]))"
| "exportItemStep env targetFile usage (FunctionDeclaration name change start skip) =
     (if skip \<or> name \<in> set usage then Inr ([], [])
      else Inr ([TextChange
                  (if isUnnamedDefaultExport change then []
                   else stripExportKeyword env (change_code change))
                  (change_start change) (change_length change)],
                [RemovedExport targetFile start name]))"
| "exportItemStep env targetFile usage (InterfaceDeclaration name change start skip) =
     (if skip \<or> name \<in> set usage then Inr ([], [])
      else Inr ([TextChange [] (change_start change) (change_length change)],
                [RemovedExport targetFile start name]))"
| "exportItemStep env targetFile usage (TypeAliasDeclaration name change start skip) =
     (if skip \<or> name \<in> set usage then Inr ([], [])
      else Inr ([TextChange [] (change_start change) (change_length change)],
                [RemovedExport targetFile start name]))"
| "exportItemStep env targetFile usage (ExportAssignment change start skip) =
     (if skip \<or> ''default'' \<in> set usage then Inr ([], [])
      else Inr ([TextChange [] (change_start change) (change_length change)],
                [RemovedExport targetFile start ''default'']))"
| "exportItemStep env targetFile usage (ExportDeclarationNamed name change start skip) =
     (if skip \<or> (\<forall>it \<in> set name. it \<in> set usage) then Inr ([], [])
      else
        let unused = filter (\<lambda>it. it \<notin> set usage) name;
            count = int (length name) - int (length unused)
        in Inr ([TextChange
                  (if count > 0 then updateExportDeclaration env (change_code change) unused
                   else [])
                  (change_start change) (change_length change)],
                map (\<lambda>it. RemovedExport targetFile start it) unused))"
| "exportItemStep env targetFile usage (ExportDeclarationNamespace skip) = Inr ([], [])"
| "exportItemStep env targetFile usage (ExportDeclarationWhole skip) = Inr ([], [])"
| "exportItemStep env targetFile usage (ExportDeclarationOther t skip) = Inl Unexpected"
| "exportItemStep env targetFile usage (ClassDeclaration name change start skip) =
     (if skip \<or> name \<in> set usage then Inr ([], [])
      else Inr ([TextChange [] (change_start change) (change_length change)],
                [RemovedExport targetFile start name]))"
| "exportItemStep env targetFile usage (OtherKind k skip) = Inl Unexpected"

text \<open>
  \<^verbatim>\<open>exports.forEach\<close>, with \<^verbatim>\<open>changes\<close> and \<^verbatim>\<open>logs\<close> as accumulators; a throw ends
  the iteration.
\<close>

fun forEachExport ::
  "Env \<Rightarrow> string \<Rightarrow> string list \<Rightarrow> ExportItem list \<Rightarrow> TextChange list \<times> RemovedExport list
    \<Rightarrow> error + (TextChange list \<times> RemovedExport list)"
where
  "forEachExport env targetFile usage [] acc = Inr acc"
| "forEachExport env targetFile usage (item # rest) acc =
     (case exportItemStep env targetFile usage item of
        Inl e \<Rightarrow> Inl e
      | Inr (c, l) \<Rightarrow> forEachExport env targetFile usage rest (fst acc @ c, snd acc @ l))"

text \<open>
  The \<^verbatim>\<open>while (true)\<close> loop that applies the \<^verbatim>\<open>fixIdDelete\<close> code fix until the
  content no longer changes. Nothing bounds the number of iterations, so the loop is a
  partial function: \<open>None\<close> is a run that never leaves the loop.
\<close>

partial_function (option) codeFixLoop :: "Env \<Rightarrow> string \<Rightarrow> string \<Rightarrow> string option" where
  "codeFixLoop env targetFile content =
     (let result = applyCodeFix env fixIdDelete targetFile content
      in if result = content then Some content
         else codeFixLoop env targetFile result)"

text \<open>
  \<^verbatim>\<open>processFile\<close>. The result is \<open>None\<close> when the code-fix loop does not end,
  \<open>Some (Inl e)\<close> when the switch throws, and \<open>Some (Inr r)\<close> when \<open>r\<close> is returned.
  A usage set is the list of its members, so \<^verbatim>\<open>usage.size === 0\<close> is \<open>usage = []\<close>.
\<close>

definition processFile ::
  "Env \<Rightarrow> Config \<Rightarrow> string \<Rightarrow> Vertexes \<Rightarrow> Files \<Rightarrow> (error + ProcessResult) option"
where
  "processFile env cfg targetFile vertexes files =
     (let usage = findFileUsage env targetFile vertexes files in
      if ''*'' \<in> set usage then Some (Inr (OpEdit (files_get files targetFile) []))
      else
        let exports = parseFile env targetFile (files_get files targetFile)
                        (case map_of vertexes targetFile of None \<Rightarrow> [] | Some v \<Rightarrow> vertex_to v) in
        if usage = [] \<and> deleteUnusedFile cfg \<and> \<not> (\<exists>v \<in> set exports. item_skip v)
        then Some (Inr OpDelete)
        else
          case forEachExport env targetFile usage exports ([], []) of
            Inl e \<Rightarrow> Some (Inl e)
          | Inr (changes, logs) \<Rightarrow>
              if changes = [] then Some (Inr (OpEdit (files_get files targetFile) logs))
              else
                let content = applyTextChanges env (files_get files targetFile) changes in
                if enableCodeFix cfg then
                  (case codeFixLoop env targetFile content of
                     None \<Rightarrow> None
                   | Some fixed \<Rightarrow>
                       Some (Inr (OpEdit (applyCodeFix env fixIdDeleteImports targetFile fixed)
                                    logs)))
                else Some (Inr (OpEdit content logs)))"

section \<open>removeWholeExportSpecifier\<close>

text \<open>
  The callback \<^verbatim>\<open>visit\<close>, with the array \<^verbatim>\<open>result\<close> as accumulator: an entry is the
  text change (the node's full span with the empty text) and the \<^verbatim>\<open>info\<close> record
  \<^verbatim>\<open>{position, code}\<close>.
\<close>

definition visit ::
  "string \<Rightarrow> (TextChange \<times> nat \<times> string) list \<Rightarrow> Node \<Rightarrow> (TextChange \<times> nat \<times> string) list"
where
  "visit specifier result node =
     (if length result > 0 then result
      else if isExportDeclaration node
              \<and> (case moduleSpecifier node of StringLiteral t \<Rightarrow> True | _ \<Rightarrow> False)
              \<and> \<not> exportClause node
              \<and> (case moduleSpecifier node of StringLiteral t \<Rightarrow> t = specifier | _ \<Rightarrow> False)
      then result @ [(TextChange [] (getFullStart node) (getFullWidth node),
                      getStart node, getText node)]
      else result)"

text \<open>
  \<^verbatim>\<open>sourceFile.forEachChild(visit)\<close>: \<^verbatim>\<open>visit\<close> returns nothing, so every top-level
  child is visited, in order.
\<close>

definition forEachChild ::
  "string \<Rightarrow> Node list \<Rightarrow> (TextChange \<times> nat \<times> string) list"
where
  "forEachChild specifier nodes = foldl (visit specifier) [] nodes"

text \<open>
  \<^verbatim>\<open>removeWholeExportSpecifier\<close>: \<open>None\<close> is \<^verbatim>\<open>null\<close>, otherwise the \<^verbatim>\<open>info\<close> of
  \<^verbatim>\<open>result[0]\<close> and the content with its text change applied.
\<close>

definition removeWholeExportSpecifier ::
  "Env \<Rightarrow> string \<Rightarrow> string \<Rightarrow> ((nat \<times> string) \<times> string) option"
where
  "removeWholeExportSpecifier env text specifier =
     (case forEachChild specifier (createSourceFile env text) of
        [] \<Rightarrow> None
      | r # _ \<Rightarrow> Some (snd r, applyTextChanges env text [fst r]))"

section \<open>removeUnusedExport\<close>

text \<open>The calls received by the \<^verbatim>\<open>editTracker\<close>, in order.\<close>

datatype TrackerEvent =
    TrackStart string string
  | TrackEnd string
  | TrackDelete string
  | TrackRemoveExport string string nat

text \<open>
  What a run mutates: the store \<^verbatim>\<open>fileService\<close>, the vertexes of
  \<^verbatim>\<open>dependencyGraph\<close>, the array \<^verbatim>\<open>wholeReexportsToBeDeleted\<close> of
  \<^verbatim>\<open>{file, specifier}\<close> pairs, and the calls made on \<^verbatim>\<open>editTracker\<close>.
\<close>

record State =
  fileService :: Files
  dependencyGraph :: Vertexes
  wholeReexportsToBeDeleted :: "(string \<times> string) list"
  editTracker :: "TrackerEvent list"

text \<open>
  Modelled from the spec: \<^verbatim>\<open>deleteVertex\<close> of the Dependency Graph (\<^verbatim>\<open>DependencyGraph\<close>
  is not under src/) removes the vertex and prunes the path from the \<^verbatim>\<open>to\<close> and
  \<^verbatim>\<open>from\<close> sets of every remaining vertex. The sets of the removed vertex itself are
  left as they are, so \<^verbatim>\<open>vertex.to\<close> read after the call is the set read before it.
\<close>

definition deleteVertex :: "Vertexes \<Rightarrow> string \<Rightarrow> Vertexes" where
  "deleteVertex g path =
     map (\<lambda>(k, v). (k, Vertex (removeAll path (vertex_to v)) (removeAll path (vertex_from v))
                         (depth v) (wholeReexportSpecifier v)))
       (AList.delete path g)"

subsection \<open>Seeding\<close>

text \<open>
  One iteration of the loop over \<^verbatim>\<open>fileService.getFileNames()\<close>. The loop state is
  the run state, the flag \<^verbatim>\<open>filesOutsideOfGraphHasSkipComment\<close> and the array
  \<^verbatim>\<open>initialFiles\<close> of \<^verbatim>\<open>{file, depth}\<close> pairs. \<open>finiteDepth\<close> is the test
  \<^verbatim>\<open>vertex && vertex.data.depth < Infinity\<close> and the depth it then reads.
\<close>

definition finiteDepth :: "Vertexes \<Rightarrow> string \<Rightarrow> nat option" where
  "finiteDepth g file =
     (case map_of g file of
        None \<Rightarrow> None
      | Some vertex \<Rightarrow> if depth vertex < \<infinity> then Some (the_enat (depth vertex)) else None)"

fun seedFile ::
  "Config \<Rightarrow> State \<times> bool \<times> (string \<times> int) list \<Rightarrow> string \<Rightarrow> State \<times> bool \<times> (string \<times> int) list"
where
  "seedFile cfg (s, flag, initialFiles) file =
     (if file \<in> set (entrypoints cfg) then (s, flag, initialFiles)
      else
        case finiteDepth (dependencyGraph s) file of
          Some d \<Rightarrow> (s, flag, initialFiles @ [(file, int d)])
        | None \<Rightarrow>
            (let flag' = (if string_includes (fileService_get (fileService s) file) IGNORE_COMMENT
                          then True else flag)
             in if deleteUnusedFile cfg \<and> \<not> flag' \<and> file \<notin> set (entrypoints cfg)
                then (s\<lparr>editTracker := editTracker s
                            @ [TrackStart file (fileService_get (fileService s) file),
                               TrackDelete file],
                         fileService := fileService_delete (fileService s) file\<rparr>,
                      flag', initialFiles)
                else (s, flag', initialFiles @ [(file, - 1)])))"

definition seedFiles :: "Config \<Rightarrow> State \<Rightarrow> string list \<Rightarrow> State \<times> bool \<times> (string \<times> int) list" where
  "seedFiles cfg s names = foldl (seedFile cfg) (s, False, []) names"

text \<open>
  \<^verbatim>\<open>initialFiles.sort((a, b) => a.depth - b.depth)\<close> (a stable sort) followed by
  \<^verbatim>\<open>initialFiles.map((v) => v.file)\<close>.
\<close>

definition sortedInitialFiles :: "(string \<times> int) list \<Rightarrow> string list" where
  "sortedInitialFiles initialFiles = map fst (sort_key snd initialFiles)"

subsection \<open>The task callback\<close>

text \<open>
  The entries pushed on \<^verbatim>\<open>wholeReexportsToBeDeleted\<close> by the loop over
  \<^verbatim>\<open>vertex.from\<close>; \<^verbatim>\<open>if (specifier)\<close> holds for a non-empty string.
\<close>

definition wholeReexportsOf :: "Vertexes \<Rightarrow> string \<Rightarrow> string list \<Rightarrow> (string \<times> string) list" where
  "wholeReexportsOf g file importers =
     concat (map (\<lambda>v. case map_of g v of
                          None \<Rightarrow> []
                        | Some target \<Rightarrow>
                            (case map_of (wholeReexportSpecifier target) file of
                               None \<Rightarrow> []
                             | Some specifier \<Rightarrow> if specifier \<noteq> [] then [(v, specifier)] else []))
               importers)"

text \<open>
  The \<^verbatim>\<open>switch (result.operation)\<close> of the callback: the new state and the files
  passed to \<^verbatim>\<open>c.add\<close>. \<open>vertex\<close> is the value of
  \<^verbatim>\<open>dependencyGraph.vertexes.get(c.file)\<close> read at the start of the callback.
\<close>

fun applyResult ::
  "Config \<Rightarrow> State \<Rightarrow> string \<Rightarrow> Vertex option \<Rightarrow> ProcessResult \<Rightarrow> State \<times> string list"
where
  "applyResult cfg s file vertex OpDelete =
     (let s1 = s\<lparr>editTracker := editTracker s
                    @ [TrackStart file (fileService_get (fileService s) file)]\<rparr>
      in if file \<in> set (entrypoints cfg)
         then (s1\<lparr>editTracker := editTracker s1 @ [TrackEnd file]\<rparr>, [])
         else
           let s2 = s1\<lparr>editTracker := editTracker s1 @ [TrackDelete file],
                       fileService := fileService_delete (fileService s1) file\<rparr>
           in case vertex of
                None \<Rightarrow> (s2, [])
              | Some vx \<Rightarrow>
                  (s2\<lparr>wholeReexportsToBeDeleted := wholeReexportsToBeDeleted s2
                         @ wholeReexportsOf (dependencyGraph s2) file (vertex_from vx),
                       dependencyGraph := deleteVertex (dependencyGraph s2) file\<rparr>,
                   if recursive cfg
                   then filter (\<lambda>f. f \<notin> set (entrypoints cfg)) (vertex_to vx)
                   else []))"
| "applyResult cfg s file vertex (OpEdit newContent removed) =
     (s\<lparr>editTracker := editTracker s
            @ [TrackStart file (fileService_get (fileService s) file)]
            @ map (\<lambda>item. TrackRemoveExport (fileName item) (code item) (position item)) removed
            @ [TrackEnd file],
         fileService := fileService_set (fileService s) file newContent\<rparr>,
      case vertex of
        None \<Rightarrow> []
      | Some vx \<Rightarrow>
          if length removed > 0 \<and> recursive cfg
          then filter (\<lambda>f. f \<notin> set (entrypoints cfg)) (vertex_to vx)
          else [])"

text \<open>
  The callback up to the call of the analyzer: \<open>None\<close> when it returns early (the file
  is not in the store, or \<^verbatim>\<open>c.signal.aborted\<close> holds after the first \<^verbatim>\<open>await\<close>),
  otherwise the vertex read for the file.
\<close>

definition taskBegin :: "State \<Rightarrow> string \<Rightarrow> bool \<Rightarrow> Vertex option option" where
  "taskBegin s file aborted =
     (if \<not> fileService_exists (fileService s) file then None
      else if aborted then None
      else Some (map_of (dependencyGraph s) file))"

text \<open>
  The callback from the return of the analyzer: the second test of
  \<^verbatim>\<open>c.signal.aborted\<close>, then the switch. \<open>s\<close> is the state at that moment.
\<close>

definition taskEnd ::
  "Config \<Rightarrow> State \<Rightarrow> string \<Rightarrow> Vertex option \<Rightarrow> bool \<Rightarrow> ProcessResult \<Rightarrow> State \<times> string list"
where
  "taskEnd cfg s file vertex aborted result =
     (if aborted then (s, []) else applyResult cfg s file vertex result)"

text \<open>
  The whole callback when nothing else runs between its start and its end and the signal
  is never aborted. \<open>fn\<close> is \<^verbatim>\<open>pool.run\<close> or \<^verbatim>\<open>processFile\<close>; it receives the
  ejected vertexes and files.
\<close>

definition runTask ::
  "(string \<Rightarrow> Vertexes \<Rightarrow> Files \<Rightarrow> (error + ProcessResult) option) \<Rightarrow> Config \<Rightarrow> State \<Rightarrow> string
    \<Rightarrow> (error + State \<times> string list) option"
where
  "runTask fn cfg s file =
     (case taskBegin s file False of
        None \<Rightarrow> Some (Inr (s, []))
      | Some vertex \<Rightarrow>
          (case fn file (dependencyGraph s) (fileService s) of
             None \<Rightarrow> None
           | Some (Inl e) \<Rightarrow> Some (Inl e)
           | Some (Inr result) \<Rightarrow> Some (Inr (taskEnd cfg s file vertex False result))))"

subsection \<open>The task scheduler\<close>

text \<open>
  Modelled from the spec: the Task Scheduler (\<^verbatim>\<open>TaskManager\<close> is not under src/), run
  with one worker: a queue of tasks that is fed during processing (the files passed to
  \<^verbatim>\<open>c.add\<close> join the end of the queue), each task consumed once, finished when the
  queue is empty. A task that raises ends the run with its error. The fuel bounds the
  number of task executions; \<open>None\<close> is a run that has not reached the empty queue
  within the fuel, or whose analyzer does not return. The number returned counts the
  task executions.
\<close>

fun execute ::
  "nat \<Rightarrow> (State \<Rightarrow> string \<Rightarrow> (error + State \<times> string list) option) \<Rightarrow> State \<Rightarrow> string list
    \<Rightarrow> (error + State \<times> nat) option"
where
  "execute fuel task s [] = Some (Inr (s, 0))"
| "execute 0 task s (f # queue) = None"
| "execute (Suc fuel) task s (f # queue) =
     (case task s f of
        None \<Rightarrow> None
      | Some (Inl e) \<Rightarrow> Some (Inl e)
      | Some (Inr (s', added)) \<Rightarrow>
          (case execute fuel task s' (queue @ added) of
             None \<Rightarrow> None
           | Some (Inl e) \<Rightarrow> Some (Inl e)
           | Some (Inr (s'', n)) \<Rightarrow> Some (Inr (s'', Suc n))))"

subsection \<open>Deferred cleanup\<close>

text \<open>One iteration of the loop over \<^verbatim>\<open>wholeReexportsToBeDeleted\<close>.\<close>

definition cleanupEntry :: "Env \<Rightarrow> State \<Rightarrow> string \<times> string \<Rightarrow> State" where
  "cleanupEntry env s item =
     (if \<not> fileService_exists (fileService s) (fst item) then s
      else
        let text = fileService_get (fileService s) (fst item)
        in case removeWholeExportSpecifier env text (snd item) of
             None \<Rightarrow> s
           | Some (info, newContent) \<Rightarrow>
               s\<lparr>fileService := fileService_set (fileService s) (fst item) newContent,
                 editTracker := editTracker s
                   @ [TrackStart (fst item) text,
                      TrackRemoveExport (fst item) (snd info) (fst info),
                      TrackEnd (fst item)]\<rparr>)"

definition cleanup :: "Env \<Rightarrow> State \<Rightarrow> State" where
  "cleanup env s = foldl (cleanupEntry env) s (wholeReexportsToBeDeleted s)"

subsection \<open>The run\<close>

text \<open>
  \<^verbatim>\<open>removeUnusedExport\<close>: seeding, the task loop, the deferred cleanup. \<open>graph\<close> is
  the dependency graph that \<^verbatim>\<open>collectImports\<close> returns for the store and the
  entrypoints.
\<close>

definition initialState :: "Files \<Rightarrow> Vertexes \<Rightarrow> State" where
  "initialState fs graph =
     \<lparr>fileService = fs, dependencyGraph = graph, wholeReexportsToBeDeleted = [],
      editTracker = []\<rparr>"

definition removeUnusedExport ::
  "nat \<Rightarrow> Env \<Rightarrow> Config \<Rightarrow> Files \<Rightarrow> Vertexes \<Rightarrow> (error + State) option"
where
  "removeUnusedExport fuel env cfg fs graph =
     (case seedFiles cfg (initialState fs graph) (getFileNames fs) of
        (s1, flag, initialFiles) \<Rightarrow>
          (case execute fuel (runTask (processFile env cfg) cfg) s1
                  (sortedInitialFiles initialFiles) of
             None \<Rightarrow> None
           | Some (Inl e) \<Rightarrow> Some (Inl e)
           | Some (Inr (s2, n)) \<Rightarrow> Some (Inr (cleanup env s2))))"

section \<open>Notions used to state the properties\<close>

text \<open>
  An export item outside the closed set of variants: its \<^verbatim>\<open>kind\<close> is not one of the
  switch, or it is an export declaration whose \<^verbatim>\<open>type\<close> is not one of the three tags.
\<close>

definition unrecognized :: "ExportItem \<Rightarrow> bool" where
  "unrecognized item =
     (case item of
        ExportDeclarationOther t skip \<Rightarrow> True
      | OtherKind k skip \<Rightarrow> True
      | _ \<Rightarrow> False)"

text \<open>
  The text changes and the log entries that the switch pushes for one item (none when it
  throws).
\<close>

definition pushedBy ::
  "Env \<Rightarrow> string \<Rightarrow> string list \<Rightarrow> ExportItem \<Rightarrow> TextChange list \<times> RemovedExport list"
where
  "pushedBy env targetFile usage item =
     (case exportItemStep env targetFile usage item of Inl e \<Rightarrow> ([], []) | Inr p \<Rightarrow> p)"

text \<open>
  A bare whole-reexport statement of a specifier: an export declaration with a
  string-literal module specifier equal to it and no export clause.
\<close>

definition isWholeReexportOf :: "string \<Rightarrow> Node \<Rightarrow> bool" where
  "isWholeReexportOf specifier node =
     (isExportDeclaration node \<and> \<not> exportClause node
      \<and> moduleSpecifier node = StringLiteral specifier)"

text \<open>The entry that \<^verbatim>\<open>visit\<close> pushes for a node: the removal of its full span.\<close>

definition removalOf :: "Node \<Rightarrow> TextChange \<times> nat \<times> string" where
  "removalOf node =
     (TextChange [] (getFullStart node) (getFullWidth node), getStart node, getText node)"




text \<open>
  A single text change applied as a cut: the text before the span, the new text, the text
  after the span. This is how the examples below apply a change, and the reading of
  ``the text outside the span stays'' in the properties of
  \<^verbatim>\<open>removeWholeExportSpecifier\<close>.
\<close>

definition cutSpan :: "string \<Rightarrow> TextChange list \<Rightarrow> string" where
  "cutSpan text changes =
     (case changes of
        [c] \<Rightarrow> take (span_start c) text @ newText c @ drop (span_start c + span_length c) text
      | _ \<Rightarrow> text)"





section \<open>Example projects\<close>


definition keepConfig :: Config where
  "keepConfig =
     \<lparr>entrypoints = [''main.ts''], deleteUnusedFile = False, enableCodeFix = False,
      recursive = True\<rparr>"

definition purgeConfig :: Config where
  "purgeConfig =
     \<lparr>entrypoints = [''main.ts''], deleteUnusedFile = True, enableCodeFix = False,
      recursive = True\<rparr>"



text \<open>
  Two modules that no entrypoint reaches, one of them carrying the skip marker, in the
  two orders in which the store can list them.
\<close>

definition orphanFiles :: Files where
  "orphanFiles =
     [(''main.ts'', ''run()''), (''old.ts'', ''export const a = 1''),
      (''keep.ts'', ''// ts-remove-unused-skip'')]"

definition orphanFilesReordered :: Files where
  "orphanFilesReordered =
     [(''main.ts'', ''run()''), (''keep.ts'', ''// ts-remove-unused-skip''),
      (''old.ts'', ''export const a = 1'')]"

definition orphanGraph :: Vertexes where
  "orphanGraph = [(''main.ts'', Vertex [] [] 0 [])]"

text \<open>
  A project with a library module \<^verbatim>\<open>lib.ts\<close> (one used and one unused function), a
  module \<^verbatim>\<open>types.ts\<close> that declares the name \<^verbatim>\<open>Foo\<close> twice (a type alias under the
  skip marker and a constant without it), a module \<^verbatim>\<open>plugin.ts\<close> whose usage is the
  wildcard, a module \<^verbatim>\<open>broken.ts\<close> for which the parser returns an item of an unknown
  kind, and a barrel \<^verbatim>\<open>index.ts\<close> with the same whole-reexport statement twice.
\<close>

definition barrelStatement :: string where
  \<open>barrelStatement = ''export * from "./gone";''\<close>

definition barrelText :: string where
  \<open>barrelText = ''export * from "./gone"; export * from "./gone";''\<close>

definition barrelRest :: string where
  \<open>barrelRest = '' export * from "./gone";''\<close>

definition barrelFirst :: Node where
  "barrelFirst = Node True (StringLiteral ''./gone'') False 0 23 0 barrelStatement"

definition barrelSecond :: Node where
  "barrelSecond = Node True (StringLiteral ''./gone'') False 23 24 24 barrelStatement"

definition barrelLast :: Node where
  "barrelLast = Node True (StringLiteral ''./gone'') False 0 24 1 barrelStatement"

definition libEnv :: Env where
  "libEnv =
     \<lparr>findFileUsage = (\<lambda>targetFile vertexes files.
         if targetFile = ''lib.ts'' then [''used'']
         else if targetFile = ''types.ts'' then [''Bar'']
         else if targetFile = ''dep.ts'' then [''d'']
         else if targetFile = ''plugin.ts'' then [''*'']
         else if targetFile = ''broken.ts'' then [''x'']
         else []),
      parseFile = (\<lambda>file text destFiles.
         if file = ''lib.ts''
         then [FunctionDeclaration ''used'' (ItemChange ''export'' 0 6 False) 0 False,
               FunctionDeclaration ''dead'' (ItemChange ''export'' 24 7 False) 25 False]
         else if file = ''types.ts''
         then [TypeAliasDeclaration ''Foo'' (ItemChange [] 0 53 False) 28 True,
               VariableStatement [''Foo''] (ItemChange [] 53 22 False) 54 False,
               InterfaceDeclaration ''Bar'' (ItemChange [] 75 24 False) 76 False]
         else if file = ''dep.ts''
         then [VariableStatement [''d''] (ItemChange [] 0 18 False) 0 False]
         else if file = ''broken.ts''
         then [VariableStatement [''x''] (ItemChange [] 0 18 False) 0 False,
               OtherKind 999 False]
         else []),
      applyTextChanges = cutSpan,
      applyCodeFix = (\<lambda>fixId file text. text),
      stripExportKeyword = (\<lambda>syntaxList. []),
      updateExportDeclaration = (\<lambda>text unused. text),
      createSourceFile = (\<lambda>text.
         if text = barrelText then [barrelFirst, barrelSecond]
         else if text = barrelRest then [barrelLast]
         else [])\<rparr>"

definition libFiles :: Files where
  "libFiles =
     [(''main.ts'', ''import lib, tool''),
      (''tool.ts'', ''import lib''),
      (''lib.ts'', ''export function used(){} export function dead(){}''),
      (''dep.ts'', ''export const d = 1'')]"

definition libGraph :: Vertexes where
  "libGraph =
     [(''main.ts'', Vertex [''lib.ts'', ''tool.ts''] [] 0 []),
      (''tool.ts'', Vertex [''lib.ts''] [''main.ts''] 1 []),
      (''lib.ts'', Vertex [''dep.ts''] [''main.ts'', ''tool.ts''] 1 []),
      (''dep.ts'', Vertex [] [''lib.ts''] 2 [])]"

definition libVertex :: Vertex where
  "libVertex = Vertex [''dep.ts''] [''main.ts'', ''tool.ts''] 1 []"

text \<open>
  The state of the library project once \<^verbatim>\<open>lib.ts\<close> has been deleted from the store
  and from the graph.
\<close>

definition libGoneState :: State where
  "libGoneState =
     \<lparr>fileService = fileService_delete libFiles ''lib.ts'',
      dependencyGraph = deleteVertex libGraph ''lib.ts'',
      wholeReexportsToBeDeleted = [],
      editTracker = []\<rparr>"

definition typesFiles :: Files where
  "typesFiles =
     [(''main.ts'', ''import Bar''),
      (''types.ts'',
       ''/* ts-remove-unused-skip */ export type Foo = number; export const Foo = 1; export interface Bar {}'')]"

definition typesGraph :: Vertexes where
  "typesGraph =
     [(''main.ts'', Vertex [''types.ts''] [] 0 []),
      (''types.ts'', Vertex [] [''main.ts''] 1 [])]"



definition brokenFiles :: Files where
  "brokenFiles = [(''main.ts'', ''import x''), (''broken.ts'', ''export const x = 1'')]"

definition brokenGraph :: Vertexes where
  "brokenGraph =
     [(''main.ts'', Vertex [''broken.ts''] [] 0 []),
      (''broken.ts'', Vertex [] [''main.ts''] 1 [])]"

definition barrelState :: State where
  "barrelState =
     \<lparr>fileService = [(''main.ts'', ''import index''), (''index.ts'', barrelText)],
      dependencyGraph = [(''main.ts'', Vertex [''index.ts''] [] 0 []),
                         (''index.ts'', Vertex [] [''main.ts''] 1 [(''gone.ts'', ''./gone'')])],
      wholeReexportsToBeDeleted = [(''index.ts'', ''./gone'')],
      editTracker = []\<rparr>"







section \<open>Properties of processFile\<close>

subsection \<open>Helper lemmas\<close>



lemma exportItemStep_unrecognized:
  "unrecognized item \<Longrightarrow> exportItemStep env targetFile usage item = Inl Unexpected"
  by (cases item) (simp_all add: unrecognized_def)

lemma forEachExport_unrecognized:
  "item \<in> set exports \<Longrightarrow> unrecognized item \<Longrightarrow>
   forEachExport env targetFile usage exports acc = Inl Unexpected"
proof (induction exports arbitrary: acc)
  case Nil
  then show ?case by simp
next
  case (Cons x xs)
  show ?case
  proof (cases "exportItemStep env targetFile usage x")
    case (Inl e)
    then show ?thesis by (cases e) simp
  next
    case (Inr p)
    with Cons.prems have "x \<noteq> item" using exportItemStep_unrecognized by fastforce
    with Cons.prems have "item \<in> set xs" by simp
    with Cons.IH Cons.prems(2) Inr show ?thesis by (simp split: prod.splits)
  qed
qed

lemma pushedBy_skip: "item_skip item \<Longrightarrow> pushedBy env targetFile usage item = ([], [])"
  by (cases item) (simp_all add: pushedBy_def)

lemma forEachExport_pushed:
  "forEachExport env targetFile usage exports acc = Inr (changes, logs) \<Longrightarrow>
   changes = fst acc @ concat (map (\<lambda>i. fst (pushedBy env targetFile usage i)) exports)
   \<and> logs = snd acc @ concat (map (\<lambda>i. snd (pushedBy env targetFile usage i)) exports)"
proof (induction exports arbitrary: acc)
  case Nil
  then show ?case by simp
next
  case (Cons x xs)
  show ?case
  proof (cases "exportItemStep env targetFile usage x")
    case (Inl e)
    with Cons.prems show ?thesis by simp
  next
    case (Inr p)
    obtain c l where p: "p = (c, l)" by (cases p)
    from Cons.prems Inr p
    have "forEachExport env targetFile usage xs (fst acc @ c, snd acc @ l) = Inr (changes, logs)"
      by simp
    from Cons.IH [OF this] Inr p show ?thesis by (simp add: pushedBy_def)
  qed
qed

lemma concat_pushed_unskipped:
  "concat (map (\<lambda>i. fst (pushedBy env targetFile usage i)) exports)
     = concat (map (\<lambda>i. fst (pushedBy env targetFile usage i))
                 (filter (\<lambda>i. \<not> item_skip i) exports))
   \<and> concat (map (\<lambda>i. snd (pushedBy env targetFile usage i)) exports)
     = concat (map (\<lambda>i. snd (pushedBy env targetFile usage i))
                 (filter (\<lambda>i. \<not> item_skip i) exports))"
  by (induction exports) (auto simp: pushedBy_skip)

lemma processFile_removed:
  assumes "processFile env cfg targetFile vertexes files = Some (Inr (OpEdit newContent removed))"
  shows "removed = []
         \<or> removed = concat (map (\<lambda>i. snd (pushedBy env targetFile
                                               (findFileUsage env targetFile vertexes files) i))
                (parseFile env targetFile (files_get files targetFile)
                   (case map_of vertexes targetFile of None \<Rightarrow> [] | Some v \<Rightarrow> vertex_to v)))"
proof -
  let ?usage = "findFileUsage env targetFile vertexes files"
  let ?exports = "parseFile env targetFile (files_get files targetFile)
                   (case map_of vertexes targetFile of None \<Rightarrow> [] | Some v \<Rightarrow> vertex_to v)"
  show ?thesis
  proof (cases "''*'' \<in> set ?usage")
    case True
    with assms show ?thesis by (simp add: processFile_def)
  next
    case False
    with assms obtain changes where
      "forEachExport env targetFile ?usage ?exports ([], []) = Inr (changes, removed)"
      by (auto simp: processFile_def Let_def split: if_splits sum.splits option.splits)
    from forEachExport_pushed [OF this] show ?thesis by simp
  qed
qed

lemma processFile_not_delete:
  "item \<in> set (parseFile env targetFile (files_get files targetFile)
             (case map_of vertexes targetFile of None \<Rightarrow> [] | Some v \<Rightarrow> vertex_to v)) \<Longrightarrow>
   item_skip item \<Longrightarrow>
   processFile env cfg targetFile vertexes files \<noteq> Some (Inr OpDelete)"
  by (auto simp: processFile_def Let_def split: sum.splits prod.splits option.splits)

lemma lib_result:
  "processFile libEnv keepConfig ''lib.ts'' libGraph libFiles
     = Some (Inr (OpEdit ''export function used(){} function dead(){}''
                    [RemovedExport ''lib.ts'' 25 ''dead'']))"
  by (simp add: processFile_def libEnv_def keepConfig_def libGraph_def libFiles_def
      files_get_def cutSpan_def)

lemma types_exports:
  "parseFile libEnv ''types.ts'' (files_get typesFiles ''types.ts'')
     (case map_of typesGraph ''types.ts'' of None \<Rightarrow> [] | Some v \<Rightarrow> vertex_to v)
   = [TypeAliasDeclaration ''Foo'' (ItemChange [] 0 53 False) 28 True,
      VariableStatement [''Foo''] (ItemChange [] 53 22 False) 54 False,
      InterfaceDeclaration ''Bar'' (ItemChange [] 75 24 False) 76 False]"
  by (simp add: libEnv_def)

lemma types_result:
  "processFile libEnv keepConfig ''types.ts'' typesGraph typesFiles
     = Some (Inr (OpEdit
         ''/* ts-remove-unused-skip */ export type Foo = number; export interface Bar {}''
         [RemovedExport ''types.ts'' 54 ''Foo'']))"
  by (simp add: processFile_def libEnv_def keepConfig_def typesGraph_def typesFiles_def
      files_get_def cutSpan_def)

subsection \<open>Unrecognized export items\<close>

text \<open>
  Claim C9. For an export item whose kind, or whose type tag in the case of an export
  declaration, is outside the recognized variants, the decision switch raises an error:
  the step of the switch for that item raises, the iteration over a list of export items
  that contains it raises, \<^verbatim>\<open>processFile\<close> raises whenever it reaches the switch
  (the usage is not the wildcard and the module is not deleted as a whole), and the task
  and the task loop end with that error, so the run is aborted.
\<close>

theorem C9_unrecognized_variant_raises:
  assumes "item \<in> set exports" and "unrecognized item"
    and "exports = parseFile env file (files_get (fileService s) file)
                     (case map_of (dependencyGraph s) file of None \<Rightarrow> [] | Some v \<Rightarrow> vertex_to v)"
    and "usage = findFileUsage env file (dependencyGraph s) (fileService s)"
  shows "exportItemStep env targetFile anyUsage item = Inl Unexpected
         \<and> forEachExport env targetFile anyUsage exports acc = Inl Unexpected
         \<and> (''*'' \<notin> set usage
              \<and> \<not> (usage = [] \<and> deleteUnusedFile cfg \<and> \<not> (\<exists>v \<in> set exports. item_skip v))
            \<longrightarrow> processFile env cfg file (dependencyGraph s) (fileService s) = Some (Inl Unexpected)
                \<and> (fileService_exists (fileService s) file
                    \<longrightarrow> runTask (processFile env cfg) cfg s file = Some (Inl Unexpected)
                        \<and> execute (Suc fuel) (runTask (processFile env cfg) cfg) s (file # queue)
                            = Some (Inl Unexpected)))"
proof -
  have step: "exportItemStep env targetFile anyUsage item = Inl Unexpected"
    using assms(2) by (rule exportItemStep_unrecognized)
  have each: "forEachExport env targetFile anyUsage exports acc = Inl Unexpected"
    using assms(1,2) by (rule forEachExport_unrecognized)
  have run: "processFile env cfg file (dependencyGraph s) (fileService s) = Some (Inl Unexpected)"
    if "''*'' \<notin> set usage"
      and "\<not> (usage = [] \<and> deleteUnusedFile cfg \<and> \<not> (\<exists>v \<in> set exports. item_skip v))"
  proof -
    have "forEachExport env file usage exports ([], []) = Inl Unexpected"
      using assms(1,2) by (rule forEachExport_unrecognized)
    with that assms(3,4) show ?thesis
      by (simp add: processFile_def Let_def)
  qed
  have task: "runTask (processFile env cfg) cfg s file = Some (Inl Unexpected)
              \<and> execute (Suc fuel) (runTask (processFile env cfg) cfg) s (file # queue)
                   = Some (Inl Unexpected)"
    if "processFile env cfg file (dependencyGraph s) (fileService s) = Some (Inl Unexpected)"
      and "fileService_exists (fileService s) file"
    using that by (simp add: runTask_def taskBegin_def)
  from step each run task show ?thesis by blast
qed

theorem C9_unrecognized_variant_raises_witness:
  "OtherKind 999 False \<in> set (parseFile libEnv ''broken.ts'' ''export const x = 1'' [])
   \<and> unrecognized (OtherKind 999 False)
   \<and> processFile libEnv keepConfig ''broken.ts'' brokenGraph brokenFiles = Some (Inl Unexpected)
   \<and> execute (Suc 0) (runTask (processFile libEnv keepConfig) keepConfig)
        (initialState brokenFiles brokenGraph) [''broken.ts''] = Some (Inl Unexpected)"
proof -
  let ?s = "initialState brokenFiles brokenGraph"
  let ?exports = "parseFile libEnv ''broken.ts'' (files_get (fileService ?s) ''broken.ts'')
                    (case map_of (dependencyGraph ?s) ''broken.ts'' of
                       None \<Rightarrow> [] | Some v \<Rightarrow> vertex_to v)"
  have e: "?exports = [VariableStatement [''x''] (ItemChange [] 0 18 False) 0 False,
                       OtherKind 999 False]"
    by (simp add: libEnv_def)
  have m: "OtherKind 999 False \<in> set ?exports" by (simp add: e)
  have u: "unrecognized (OtherKind 999 False)" by (simp add: unrecognized_def)
  have g: "findFileUsage libEnv ''broken.ts'' (dependencyGraph ?s) (fileService ?s) = [''x'']"
    by (simp add: libEnv_def)
  from C9_unrecognized_variant_raises [OF m u refl refl, where cfg = keepConfig and fuel = 0
      and queue = "[]"] m u g
  show ?thesis
    by (simp add: initialState_def fileService_exists_def brokenFiles_def libEnv_def)
qed

subsection \<open>Skipped export items\<close>

text \<open>
  Claim C6, as amended. For every export item of a module whose skip flag is true, the
  switch pushes no text change and no log entry for that item, and \<^verbatim>\<open>processFile\<close>
  does not return the delete operation for the module, whatever the usage. The text
  changes and the log entries of a complete iteration are exactly those pushed for the
  items without the skip flag, and the removed exports of an edit are empty or exactly the
  entries logged for the items without the skip flag: the symbol of a skipped item is
  reported as removed only when another item, without the flag, carries the same symbol.
\<close>

theorem C6_skipped_item_not_removed:
  assumes "item \<in> set exports" and "item_skip item"
    and "exports = parseFile env targetFile (files_get files targetFile)
                     (case map_of vertexes targetFile of None \<Rightarrow> [] | Some v \<Rightarrow> vertex_to v)"
    and "usage = findFileUsage env targetFile vertexes files"
  shows "pushedBy env targetFile usage item = ([], [])
         \<and> processFile env cfg targetFile vertexes files \<noteq> Some (Inr OpDelete)
         \<and> (forEachExport env targetFile usage exports ([], []) = Inr (changes, logs)
            \<longrightarrow> changes = concat (map (\<lambda>i. fst (pushedBy env targetFile usage i))
                                   (filter (\<lambda>i. \<not> item_skip i) exports))
                \<and> logs = concat (map (\<lambda>i. snd (pushedBy env targetFile usage i))
                                   (filter (\<lambda>i. \<not> item_skip i) exports)))
         \<and> (processFile env cfg targetFile vertexes files = Some (Inr (OpEdit newContent removed))
            \<longrightarrow> removed = []
                \<or> removed = concat (map (\<lambda>i. snd (pushedBy env targetFile usage i))
                                      (filter (\<lambda>i. \<not> item_skip i) exports)))"
proof -
  have a: "pushedBy env targetFile usage item = ([], [])"
    using assms(2) by (rule pushedBy_skip)
  have b: "processFile env cfg targetFile vertexes files \<noteq> Some (Inr OpDelete)"
    using assms(1,2) unfolding assms(3) by (rule processFile_not_delete)
  have c: "changes = concat (map (\<lambda>i. fst (pushedBy env targetFile usage i))
                               (filter (\<lambda>i. \<not> item_skip i) exports))
           \<and> logs = concat (map (\<lambda>i. snd (pushedBy env targetFile usage i))
                               (filter (\<lambda>i. \<not> item_skip i) exports))"
    if "forEachExport env targetFile usage exports ([], []) = Inr (changes, logs)"
    using forEachExport_pushed [OF that]
      concat_pushed_unskipped [of env targetFile usage exports] by simp
  have d: "removed = []
           \<or> removed = concat (map (\<lambda>i. snd (pushedBy env targetFile usage i))
                                 (filter (\<lambda>i. \<not> item_skip i) exports))"
    if "processFile env cfg targetFile vertexes files = Some (Inr (OpEdit newContent removed))"
    using processFile_removed [OF that]
      concat_pushed_unskipped [of env targetFile usage exports]
    unfolding assms(3,4) by simp
  from a b c d show ?thesis by blast
qed

theorem C6_skipped_item_not_removed_witness:
  "TypeAliasDeclaration ''Foo'' (ItemChange [] 0 53 False) 28 True
     \<in> set (parseFile libEnv ''types.ts'' (files_get typesFiles ''types.ts'')
              (case map_of typesGraph ''types.ts'' of None \<Rightarrow> [] | Some v \<Rightarrow> vertex_to v))
   \<and> item_skip (TypeAliasDeclaration ''Foo'' (ItemChange [] 0 53 False) 28 True)
   \<and> pushedBy libEnv ''types.ts'' (findFileUsage libEnv ''types.ts'' typesGraph typesFiles)
        (TypeAliasDeclaration ''Foo'' (ItemChange [] 0 53 False) 28 True) = ([], [])
   \<and> processFile libEnv purgeConfig ''types.ts'' typesGraph typesFiles \<noteq> Some (Inr OpDelete)"
proof -
  let ?item = "TypeAliasDeclaration ''Foo'' (ItemChange [] 0 53 False) 28 True"
  have m: "?item \<in> set (parseFile libEnv ''types.ts'' (files_get typesFiles ''types.ts'')
              (case map_of typesGraph ''types.ts'' of None \<Rightarrow> [] | Some v \<Rightarrow> vertex_to v))"
    by (simp add: types_exports)
  have k: "item_skip ?item" by simp
  from C6_skipped_item_not_removed [OF m k refl refl, where cfg = purgeConfig] m k
  show ?thesis by blast
qed

text \<open>
  The claim as stated fails on the symbol: in \<^verbatim>\<open>types.ts\<close> the type alias \<^verbatim>\<open>Foo\<close>
  carries the skip flag, the constant \<^verbatim>\<open>Foo\<close> does not and is unused, and the removed
  exports of the edit name \<^verbatim>\<open>Foo\<close>.
\<close>

theorem C6_skipped_symbol_counterexample:
  "parseFile libEnv ''types.ts'' (files_get typesFiles ''types.ts'')
       (case map_of typesGraph ''types.ts'' of None \<Rightarrow> [] | Some v \<Rightarrow> vertex_to v)
     = [TypeAliasDeclaration ''Foo'' (ItemChange [] 0 53 False) 28 True,
        VariableStatement [''Foo''] (ItemChange [] 53 22 False) 54 False,
        InterfaceDeclaration ''Bar'' (ItemChange [] 75 24 False) 76 False]
   \<and> item_skip (TypeAliasDeclaration ''Foo'' (ItemChange [] 0 53 False) 28 True)
   \<and> processFile libEnv keepConfig ''types.ts'' typesGraph typesFiles
     = Some (Inr (OpEdit
         ''/* ts-remove-unused-skip */ export type Foo = number; export interface Bar {}''
         [RemovedExport ''types.ts'' 54 ''Foo'']))
   \<and> ''Foo'' \<in> code ` set [RemovedExport ''types.ts'' 54 ''Foo'']"
  by (simp add: types_exports types_result)

section \<open>Properties of removeWholeExportSpecifier and of the deferred cleanup\<close>

subsection \<open>Helper lemmas\<close>

lemma visit_cases:
  "visit specifier result node =
     (if result \<noteq> [] then result
      else if isWholeReexportOf specifier node then [removalOf node] else [])"
  by (auto simp: visit_def isWholeReexportOf_def removalOf_def split: ModuleSpecifier.splits)

lemma foldl_visit_nonempty:
  "result \<noteq> [] \<Longrightarrow> foldl (visit specifier) result nodes = result"
  by (induction nodes) (simp_all add: visit_cases)

lemma forEachChild_find:
  "forEachChild specifier nodes =
     (case find (isWholeReexportOf specifier) nodes of
        None \<Rightarrow> []
      | Some node \<Rightarrow> [removalOf node])"
  unfolding forEachChild_def
proof (induction nodes)
  case Nil
  then show ?case by simp
next
  case (Cons n ns)
  show ?case
  proof (cases "isWholeReexportOf specifier n")
    case True
    then have "visit specifier [] n = [removalOf n]" by (simp add: visit_cases)
    with True show ?thesis by (simp add: foldl_visit_nonempty)
  next
    case False
    then have "visit specifier [] n = []" by (simp add: visit_cases)
    with False Cons.IH show ?thesis by simp
  qed
qed

lemma find_first:
  "\<forall>m \<in> set before. \<not> P m \<Longrightarrow> P node \<Longrightarrow> find P (before @ node # rest) = Some node"
  by (induction before) simp_all

lemma find_none: "\<forall>m \<in> set nodes. \<not> P m \<Longrightarrow> find P nodes = None"
  by (induction nodes) simp_all

lemma removeWholeExportSpecifier_find:
  "removeWholeExportSpecifier env text specifier =
     (case find (isWholeReexportOf specifier) (createSourceFile env text) of
        None \<Rightarrow> None
      | Some node \<Rightarrow>
          Some ((getStart node, getText node),
                applyTextChanges env text
                  [TextChange [] (getFullStart node) (getFullWidth node)]))"
  by (simp add: removeWholeExportSpecifier_def forEachChild_find removalOf_def
      split: option.splits)

lemma cut_keeps_later:
  assumes "st + len \<le> a"
  shows "take w (drop (a - len) (take st text @ drop (st + len) text)) = take w (drop a text)"
proof (cases "st \<le> length text")
  case True
  with assms have "drop (a - len) (take st text @ drop (st + len) text)
                   = drop (a - len - st) (drop (st + len) text)"
    by simp
  also from assms have "\<dots> = drop a text" by simp
  finally show ?thesis by simp
next
  case False
  with assms show ?thesis by simp
qed

lemma cleanupEntry_cases:
  "cleanupEntry env s item =
    (if \<not> fileService_exists (fileService s) (fst item) then s
     else case find (isWholeReexportOf (snd item))
                 (createSourceFile env (fileService_get (fileService s) (fst item))) of
            None \<Rightarrow> s
          | Some node \<Rightarrow>
              s\<lparr>fileService := fileService_set (fileService s) (fst item)
                   (applyTextChanges env (fileService_get (fileService s) (fst item))
                      [TextChange [] (getFullStart node) (getFullWidth node)]),
                editTracker := editTracker s
                   @ [TrackStart (fst item) (fileService_get (fileService s) (fst item)),
                      TrackRemoveExport (fst item) (getText node) (getStart node),
                      TrackEnd (fst item)]\<rparr>)"
  by (simp add: cleanupEntry_def removeWholeExportSpecifier_find Let_def split: option.splits)

lemma barrel_nodes:
  "createSourceFile libEnv barrelText = [] @ barrelFirst # [barrelSecond]"
  by (simp add: libEnv_def)

lemma barrel_match:
  "isWholeReexportOf ''./gone'' barrelFirst" "isWholeReexportOf ''./gone'' barrelSecond"
  by (simp_all add: isWholeReexportOf_def barrelFirst_def barrelSecond_def)

lemma barrel_cut:
  "applyTextChanges libEnv barrelText [TextChange [] 0 23] = barrelRest"
  by (simp add: libEnv_def cutSpan_def barrelText_def barrelRest_def)

subsection \<open>One statement for each call\<close>

text \<open>
  Claim C10. \<^verbatim>\<open>removeWholeExportSpecifier\<close> removes at most one statement: the array
  of collected removals never has more than one entry. When the top-level nodes of the
  text are \<open>before @ node # rest\<close>, no node of \<open>before\<close> is a bare whole-reexport of the
  specifier and \<open>node\<close> is one, the only text change applied is the removal of the full
  span of \<open>node\<close>, whatever \<open>rest\<close> holds; when the change is applied as a cut, the text
  of every statement of \<open>rest\<close> that starts after the span of \<open>node\<close>, matching ones
  included, is still in the returned content, moved up by the width of \<open>node\<close>.
\<close>

theorem C10_removes_first_match_only:
  assumes "createSourceFile env text = before @ node # rest"
    and "\<forall>m \<in> set before. \<not> isWholeReexportOf specifier m"
    and "isWholeReexportOf specifier node"
  shows "length (forEachChild specifier nodes) \<le> 1
         \<and> forEachChild specifier (createSourceFile env text) = [removalOf node]
         \<and> removeWholeExportSpecifier env text specifier
             = Some ((getStart node, getText node),
                     applyTextChanges env text
                       [TextChange [] (getFullStart node) (getFullWidth node)])
         \<and> (applyTextChanges env text [TextChange [] (getFullStart node) (getFullWidth node)]
               = cutSpan text [TextChange [] (getFullStart node) (getFullWidth node)]
            \<longrightarrow> (\<forall>m \<in> set rest. getFullStart node + getFullWidth node \<le> getFullStart m
                  \<longrightarrow> take (getFullWidth m)
                        (drop (getFullStart m - getFullWidth node)
                           (applyTextChanges env text
                              [TextChange [] (getFullStart node) (getFullWidth node)]))
                      = take (getFullWidth m) (drop (getFullStart m) text)))"
proof -
  have one: "length (forEachChild specifier nodes) \<le> 1"
    by (simp add: forEachChild_find split: option.splits)
  have f: "find (isWholeReexportOf specifier) (createSourceFile env text) = Some node"
    unfolding assms(1) using assms(2,3) by (rule find_first)
  have first: "forEachChild specifier (createSourceFile env text) = [removalOf node]"
    by (simp add: forEachChild_find f)
  have res: "removeWholeExportSpecifier env text specifier
             = Some ((getStart node, getText node),
                     applyTextChanges env text
                       [TextChange [] (getFullStart node) (getFullWidth node)])"
    by (simp add: removeWholeExportSpecifier_find f)
  have kept: "take (getFullWidth m)
                (drop (getFullStart m - getFullWidth node)
                   (applyTextChanges env text
                      [TextChange [] (getFullStart node) (getFullWidth node)]))
              = take (getFullWidth m) (drop (getFullStart m) text)"
    if "applyTextChanges env text [TextChange [] (getFullStart node) (getFullWidth node)]
          = cutSpan text [TextChange [] (getFullStart node) (getFullWidth node)]"
      and "getFullStart node + getFullWidth node \<le> getFullStart m" for m
  proof -
    have "cutSpan text [TextChange [] (getFullStart node) (getFullWidth node)]
          = take (getFullStart node) text @ drop (getFullStart node + getFullWidth node) text"
      by (simp add: cutSpan_def)
    with that(1) cut_keeps_later [OF that(2)] show ?thesis by (simp only:)
  qed
  from one first res kept show ?thesis by blast
qed

theorem C10_removes_first_match_only_witness:
  "createSourceFile libEnv barrelText = [] @ barrelFirst # [barrelSecond]
   \<and> isWholeReexportOf ''./gone'' barrelFirst
   \<and> isWholeReexportOf ''./gone'' barrelSecond
   \<and> removeWholeExportSpecifier libEnv barrelText ''./gone''
       = Some ((0, barrelStatement), barrelRest)
   \<and> take 24 (drop 0 barrelRest) = take 24 (drop 23 barrelText)"
proof -
  have n: "\<forall>m \<in> set []. \<not> isWholeReexportOf ''./gone'' m" by simp
  from C10_removes_first_match_only [OF barrel_nodes n barrel_match(1)]
    barrel_nodes barrel_match
  show ?thesis
    by (simp add: barrel_cut barrelFirst_def barrelSecond_def)
       (simp add: barrelRest_def barrelText_def)
qed

subsection \<open>Entries of the deferred cleanup list\<close>

text \<open>
  Claim C8. For an entry \<open>(importer, specifier)\<close> of the deferred cleanup list, processed
  in the state the loop has reached: when the importer is no longer in the store, or the
  top-level nodes of its current text hold no bare whole-reexport statement of the
  specifier, the entry leaves the state as it is (nothing is raised, no file changes);
  otherwise the first such statement is removed from the importer's text, the new text is
  stored for the importer, and the graph is not touched. The cleanup is the iteration of
  this step over the list.
\<close>

theorem C8_deferred_cleanup_entry:
  "(\<not> fileService_exists (fileService s) importer
      \<longrightarrow> cleanupEntry env s (importer, specifier) = s)
   \<and> (fileService_exists (fileService s) importer
       \<and> (\<forall>m \<in> set (createSourceFile env (fileService_get (fileService s) importer)).
              \<not> isWholeReexportOf specifier m)
      \<longrightarrow> cleanupEntry env s (importer, specifier) = s)
   \<and> (fileService_exists (fileService s) importer
       \<and> createSourceFile env (fileService_get (fileService s) importer) = before @ node # rest
       \<and> (\<forall>m \<in> set before. \<not> isWholeReexportOf specifier m)
       \<and> isWholeReexportOf specifier node
      \<longrightarrow> cleanupEntry env s (importer, specifier)
          = s\<lparr>fileService := fileService_set (fileService s) importer
                 (applyTextChanges env (fileService_get (fileService s) importer)
                    [TextChange [] (getFullStart node) (getFullWidth node)]),
               editTracker := editTracker s
                 @ [TrackStart importer (fileService_get (fileService s) importer),
                    TrackRemoveExport importer (getText node) (getStart node),
                    TrackEnd importer]\<rparr>)
   \<and> cleanup env s = foldl (cleanupEntry env) s (wholeReexportsToBeDeleted s)"
proof -
  have a: "cleanupEntry env s (importer, specifier) = s"
    if "\<not> fileService_exists (fileService s) importer"
    using that by (simp add: cleanupEntry_cases)
  have b: "cleanupEntry env s (importer, specifier) = s"
    if "\<forall>m \<in> set (createSourceFile env (fileService_get (fileService s) importer)).
          \<not> isWholeReexportOf specifier m"
    using find_none [OF that] by (simp add: cleanupEntry_cases)
  have c: "cleanupEntry env s (importer, specifier)
          = s\<lparr>fileService := fileService_set (fileService s) importer
                 (applyTextChanges env (fileService_get (fileService s) importer)
                    [TextChange [] (getFullStart node) (getFullWidth node)]),
               editTracker := editTracker s
                 @ [TrackStart importer (fileService_get (fileService s) importer),
                    TrackRemoveExport importer (getText node) (getStart node),
                    TrackEnd importer]\<rparr>"
    if "fileService_exists (fileService s) importer"
      and "createSourceFile env (fileService_get (fileService s) importer) = before @ node # rest"
      and "\<forall>m \<in> set before. \<not> isWholeReexportOf specifier m"
      and "isWholeReexportOf specifier node"
  proof -
    have "find (isWholeReexportOf specifier)
            (createSourceFile env (fileService_get (fileService s) importer)) = Some node"
      unfolding that(2) using that(3,4) by (rule find_first)
    with that(1) show ?thesis by (simp add: cleanupEntry_cases)
  qed
  from a b c show ?thesis by (simp add: cleanup_def)
qed

theorem C8_deferred_cleanup_entry_witness:
  "fileService_exists (fileService barrelState) ''index.ts''
   \<and> createSourceFile libEnv (fileService_get (fileService barrelState) ''index.ts'')
       = [] @ barrelFirst # [barrelSecond]
   \<and> isWholeReexportOf ''./gone'' barrelFirst
   \<and> fileService (cleanupEntry libEnv barrelState (''index.ts'', ''./gone''))
       = [(''main.ts'', ''import index''), (''index.ts'', barrelRest)]
   \<and> \<not> fileService_exists (fileService barrelState) ''gone.ts''
   \<and> cleanupEntry libEnv barrelState (''gone.ts'', ''./gone'') = barrelState"
proof -
  have t: "fileService_get (fileService barrelState) ''index.ts'' = barrelText"
    by (simp add: barrelState_def fileService_get_def)
  have e: "fileService_exists (fileService barrelState) ''index.ts''"
    by (simp add: barrelState_def fileService_exists_def)
  have g: "\<not> fileService_exists (fileService barrelState) ''gone.ts''"
    by (simp add: barrelState_def fileService_exists_def)
  have n: "createSourceFile libEnv (fileService_get (fileService barrelState) ''index.ts'')
           = [] @ barrelFirst # [barrelSecond]"
    unfolding t by (rule barrel_nodes)
  have f: "fileService_set (fileService barrelState) ''index.ts'' barrelRest
           = [(''main.ts'', ''import index''), (''index.ts'', barrelRest)]"
    by (simp add: barrelState_def fileService_set_def)
  from C8_deferred_cleanup_entry [of barrelState "''index.ts''" libEnv "''./gone''"
      "[]" barrelFirst "[barrelSecond]"]
    C8_deferred_cleanup_entry [of barrelState "''gone.ts''" libEnv "''./gone''"]
    e g n barrel_match(1)
  show ?thesis
    by (simp add: t f barrel_cut barrelFirst_def)
qed

section \<open>Properties of the run\<close>

subsection \<open>Helper lemmas\<close>

lemma delete_keeps_other:
  "e \<in> set es \<Longrightarrow> name \<notin> set es \<Longrightarrow> map_of (fileService_delete fs name) e = map_of fs e"
proof -
  assume "e \<in> set es" and "name \<notin> set es"
  then have "e \<noteq> name" by auto
  then show ?thesis by (simp add: fileService_delete_def)
qed

lemma exists_set:
  "fileService_exists fs e \<Longrightarrow> fileService_exists (fileService_set fs name c) e"
  by (simp add: fileService_exists_def fileService_set_def update_conv')

lemma seedFile_entrypoint:
  assumes "e \<in> set (entrypoints cfg)"
    and "seedFile cfg (s, flag, initialFiles) file = (s', flag', initialFiles')"
  shows "map_of (fileService s') e = map_of (fileService s) e
         \<and> dependencyGraph s' = dependencyGraph s
         \<and> (e \<notin> fst ` set initialFiles \<longrightarrow> e \<notin> fst ` set initialFiles')"
  using assms
  by (auto simp: Let_def delete_keeps_other split: if_splits option.splits)

lemma foldl_seedFile_entrypoint:
  assumes "e \<in> set (entrypoints cfg)"
  shows "foldl (seedFile cfg) (s, flag, initialFiles) names = (s', flag', initialFiles') \<Longrightarrow>
         map_of (fileService s') e = map_of (fileService s) e
         \<and> dependencyGraph s' = dependencyGraph s
         \<and> (e \<notin> fst ` set initialFiles \<longrightarrow> e \<notin> fst ` set initialFiles')"
proof (induction names arbitrary: s flag initialFiles)
  case Nil
  then show ?case by simp
next
  case (Cons x xs)
  obtain s1 flag1 init1 where st: "seedFile cfg (s, flag, initialFiles) x = (s1, flag1, init1)"
    by (cases "seedFile cfg (s, flag, initialFiles) x") auto
  from Cons.prems st
  have "foldl (seedFile cfg) (s1, flag1, init1) xs = (s', flag', initialFiles')"
    by simp
  from Cons.IH [OF this] seedFile_entrypoint [OF assms st] show ?case by simp
qed

lemma applyResult_keeps_entrypoint:
  assumes "e \<in> set (entrypoints cfg)" and "fileService_exists (fileService s) e"
  shows "fileService_exists (fileService (fst (applyResult cfg s file vertex result))) e"
proof (cases result)
  case OpDelete
  with assms show ?thesis
    by (cases "file \<in> set (entrypoints cfg)")
       (auto simp: Let_def fileService_exists_def delete_keeps_other split: option.splits)
next
  case (OpEdit c removed)
  with assms show ?thesis by (simp add: exists_set)
qed

lemma taskEnd_keeps_entrypoint:
  assumes "e \<in> set (entrypoints cfg)" and "fileService_exists (fileService s) e"
  shows "fileService_exists (fileService (fst (taskEnd cfg s file vertex aborted result))) e"
  using applyResult_keeps_entrypoint [OF assms] assms(2) by (simp add: taskEnd_def)

lemma runTask_keeps_entrypoint:
  assumes "e \<in> set (entrypoints cfg)" and "fileService_exists (fileService s) e"
    and "runTask fn cfg s file = Some (Inr (s', added))"
  shows "fileService_exists (fileService s') e"
proof (cases "taskBegin s file False")
  case None
  with assms show ?thesis by (simp add: runTask_def)
next
  case (Some vertex)
  with assms(3) have "\<exists>result. s' = fst (taskEnd cfg s file vertex False result)"
    by (auto simp: runTask_def split: option.splits sum.splits) (metis fst_conv)
  then obtain result where "s' = fst (taskEnd cfg s file vertex False result)" ..
  with taskEnd_keeps_entrypoint [OF assms(1,2)] show ?thesis by simp
qed

lemma execute_invariant:
  assumes step: "\<And>s f s' added. P s \<Longrightarrow> task s f = Some (Inr (s', added)) \<Longrightarrow> P s'"
  shows "P s \<Longrightarrow> execute fuel task s queue = Some (Inr (s', n)) \<Longrightarrow> P s'"
proof (induction fuel arbitrary: s queue n)
  case 0
  then show ?case by (cases queue) simp_all
next
  case (Suc fuel)
  show ?case
  proof (cases queue)
    case Nil
    with Suc.prems show ?thesis by simp
  next
    case (Cons f rest)
    with Suc.prems(2) obtain s1 added where t: "task s f = Some (Inr (s1, added))"
      by (auto split: option.splits sum.splits)
    with Suc.prems(2) Cons obtain m where
      e: "execute fuel task s1 (rest @ added) = Some (Inr (s', m))"
      by (auto split: option.splits sum.splits)
    have "P s1" by (rule step [OF Suc.prems(1) t])
    from Suc.IH [OF this e] show ?thesis .
  qed
qed

lemma cleanupEntry_keeps:
  "fileService_exists (fileService s) e \<Longrightarrow>
   fileService_exists (fileService (cleanupEntry env s item)) e"
  by (simp add: cleanupEntry_cases exists_set split: option.splits)

lemma foldl_cleanupEntry_keeps:
  "fileService_exists (fileService s) e \<Longrightarrow>
   fileService_exists (fileService (foldl (cleanupEntry env) s items)) e"
  by (induction items arbitrary: s) (simp_all add: cleanupEntry_keeps)

lemma removeUnusedExport_keeps_entrypoint:
  assumes "e \<in> set (entrypoints cfg)" and "fileService_exists fs e"
    and "removeUnusedExport fuel env cfg fs graph = Some (Inr s')"
  shows "fileService_exists (fileService s') e"
proof -
  obtain s1 flag initialFiles where
    seed: "seedFiles cfg (initialState fs graph) (getFileNames fs) = (s1, flag, initialFiles)"
    by (cases "seedFiles cfg (initialState fs graph) (getFileNames fs)") auto
  from assms(3) seed obtain s2 n where
    ex: "execute fuel (runTask (processFile env cfg) cfg) s1 (sortedInitialFiles initialFiles)
           = Some (Inr (s2, n))" and s': "s' = cleanup env s2"
    by (auto simp: removeUnusedExport_def split: option.splits sum.splits)
  from foldl_seedFile_entrypoint [OF assms(1) seed [unfolded seedFiles_def]] assms(2)
  have "fileService_exists (fileService s1) e"
    by (simp add: fileService_exists_def initialState_def)
  then have "fileService_exists (fileService s2) e"
    using execute_invariant [where P = "\<lambda>s. fileService_exists (fileService s) e", OF _ _ ex]
      runTask_keeps_entrypoint [OF assms(1)] by blast
  then show ?thesis by (simp add: s' cleanup_def foldl_cleanupEntry_keeps)
qed

lemma includes_marker: "string_includes ''// ts-remove-unused-skip'' IGNORE_COMMENT"
  by (simp add: string_includes_def IGNORE_COMMENT_def sublist_code)

lemma includes_no_marker: "\<not> string_includes ''export const a = 1'' IGNORE_COMMENT"
  by (simp add: string_includes_def IGNORE_COMMENT_def sublist_code)

lemma orphan_seeding:
  "seedFiles purgeConfig (initialState orphanFiles orphanGraph) (getFileNames orphanFiles)
   = (\<lparr>fileService = [(''main.ts'', ''run()''), (''keep.ts'', ''// ts-remove-unused-skip'')],
       dependencyGraph = orphanGraph, wholeReexportsToBeDeleted = [],
       editTracker = [TrackStart ''old.ts'' ''export const a = 1'', TrackDelete ''old.ts'']\<rparr>,
      True, [(''keep.ts'', - 1)])"
  by (simp add: seedFiles_def initialState_def getFileNames_def orphanFiles_def orphanGraph_def
      purgeConfig_def finiteDepth_def fileService_get_def fileService_delete_def
      includes_marker includes_no_marker)

lemma orphan_seeding_reordered:
  "seedFiles purgeConfig (initialState orphanFilesReordered orphanGraph)
     (getFileNames orphanFilesReordered)
   = (\<lparr>fileService = orphanFilesReordered, dependencyGraph = orphanGraph,
       wholeReexportsToBeDeleted = [], editTracker = []\<rparr>,
      True, [(''keep.ts'', - 1), (''old.ts'', - 1)])"
  by (simp add: seedFiles_def initialState_def getFileNames_def orphanFilesReordered_def
      orphanGraph_def purgeConfig_def finiteDepth_def fileService_get_def fileService_delete_def
      includes_marker includes_no_marker)

subsection \<open>Entrypoints\<close>

text \<open>
  Claim C1. No entrypoint module is deleted from the store. Seeding skips every
  entrypoint: its store entry and the graph are as before and no task is seeded for it.
  When the result of a completed task is the delete operation and the path is in the
  entrypoint list, the store, the graph and the deferred cleanup list are unchanged,
  nothing is enqueued, and the only effect is the pair of notifications \<^verbatim>\<open>start\<close>
  and \<^verbatim>\<open>end\<close>. For every file, result and abort flag, a completed task keeps every
  entrypoint that is in the store, and so does a whole run that returns, for every
  configuration and every analyzer.
\<close>

theorem C1_entrypoint_never_deleted:
  assumes "e \<in> set (entrypoints cfg)"
  shows "(seedFiles cfg s names = (s1, flag, initialFiles)
            \<longrightarrow> map_of (fileService s1) e = map_of (fileService s) e
                \<and> dependencyGraph s1 = dependencyGraph s
                \<and> e \<notin> fst ` set initialFiles)
         \<and> applyResult cfg s e vertex OpDelete
             = (s\<lparr>editTracker := editTracker s
                     @ [TrackStart e (fileService_get (fileService s) e), TrackEnd e]\<rparr>, [])
         \<and> (fileService_exists (fileService s) e
            \<longrightarrow> fileService_exists
                  (fileService (fst (taskEnd cfg s file vertex aborted result))) e)
         \<and> (fileService_exists fs e \<and> removeUnusedExport fuel env cfg fs graph = Some (Inr s')
            \<longrightarrow> fileService_exists (fileService s') e)"
proof -
  have seed: "map_of (fileService s1) e = map_of (fileService s) e
              \<and> dependencyGraph s1 = dependencyGraph s
              \<and> e \<notin> fst ` set initialFiles"
    if "seedFiles cfg s names = (s1, flag, initialFiles)"
    using foldl_seedFile_entrypoint [OF assms that [unfolded seedFiles_def]] by simp
  have del: "applyResult cfg s e vertex OpDelete
             = (s\<lparr>editTracker := editTracker s
                     @ [TrackStart e (fileService_get (fileService s) e), TrackEnd e]\<rparr>, [])"
    using assms by (simp add: Let_def)
  have task: "fileService_exists (fileService (fst (taskEnd cfg s file vertex aborted result))) e"
    if "fileService_exists (fileService s) e"
    using assms that by (rule taskEnd_keeps_entrypoint)
  have run: "fileService_exists (fileService s') e"
    if "fileService_exists fs e" and "removeUnusedExport fuel env cfg fs graph = Some (Inr s')"
    using assms that by (rule removeUnusedExport_keeps_entrypoint)
  from seed del task run show ?thesis by blast
qed

theorem C1_entrypoint_never_deleted_witness:
  "''main.ts'' \<in> set (entrypoints purgeConfig)
   \<and> map_of (fileService (fst (seedFiles purgeConfig (initialState orphanFiles orphanGraph)
                                  (getFileNames orphanFiles)))) ''main.ts''
       = Some ''run()''
   \<and> applyResult purgeConfig (initialState orphanFiles orphanGraph) ''main.ts''
        (Some (Vertex [] [] 0 [])) OpDelete
       = ((initialState orphanFiles orphanGraph)
            \<lparr>editTracker := [TrackStart ''main.ts'' ''run()'', TrackEnd ''main.ts'']\<rparr>, [])"
proof -
  have h: "''main.ts'' \<in> set (entrypoints purgeConfig)" by (simp add: purgeConfig_def)
  from C1_entrypoint_never_deleted [OF h, where s = "initialState orphanFiles orphanGraph"
      and vertex = "Some (Vertex [] [] 0 [])"] h
  show ?thesis
    by (simp add: orphan_seeding)
       (simp add: initialState_def orphanFiles_def fileService_get_def)
qed

subsection \<open>Unreachable modules and the skip marker\<close>

text \<open>
  Claim C4 asks that one skip marker outside the graph keeps every unreachable module,
  whatever the order in which the store lists its files. The seeding loop sets the flag
  \<^verbatim>\<open>filesOutsideOfGraphHasSkipComment\<close> in the same pass that deletes: with deletion
  of unused modules enabled, the unreachable module \<^verbatim>\<open>old.ts\<close> listed before the
  marked module \<^verbatim>\<open>keep.ts\<close> is deleted during seeding, and it is kept when the store
  lists \<^verbatim>\<open>keep.ts\<close> first.
\<close>

theorem C4_seeding_depends_on_file_order:
  "deleteUnusedFile purgeConfig
   \<and> finiteDepth orphanGraph ''old.ts'' = None
   \<and> finiteDepth orphanGraph ''keep.ts'' = None
   \<and> string_includes (fileService_get orphanFiles ''keep.ts'') IGNORE_COMMENT
   \<and> set orphanFilesReordered = set orphanFiles
   \<and> fileService (fst (seedFiles purgeConfig (initialState orphanFiles orphanGraph)
                          (getFileNames orphanFiles)))
       = [(''main.ts'', ''run()''), (''keep.ts'', ''// ts-remove-unused-skip'')]
   \<and> \<not> fileService_exists
          (fileService (fst (seedFiles purgeConfig (initialState orphanFiles orphanGraph)
                               (getFileNames orphanFiles)))) ''old.ts''
   \<and> fileService (fst (seedFiles purgeConfig (initialState orphanFilesReordered orphanGraph)
                          (getFileNames orphanFilesReordered)))
       = orphanFilesReordered"
  by (simp add: orphan_seeding orphan_seeding_reordered fileService_exists_def)
     (auto simp: purgeConfig_def finiteDepth_def orphanGraph_def orphanFiles_def
        orphanFilesReordered_def fileService_get_def includes_marker)

subsection \<open>Tasks enqueued after an edit\<close>

text \<open>
  Claim C3, as amended. For a completed task whose result is an edit that removed at
  least one export, with cascading propagation enabled, the modules enqueued are exactly
  the members of the \<^verbatim>\<open>to\<close> set of the module's vertex (the modules it imports) that
  are not entrypoints, in the order of that set, and none when the module has no vertex.
\<close>

theorem C3_edit_enqueues_imported_modules:
  assumes "removed \<noteq> []" and "recursive cfg"
    and "fileService_exists (fileService s) file"
    and "fn file (dependencyGraph s) (fileService s) = Some (Inr (OpEdit newContent removed))"
  shows "\<exists>s'. runTask fn cfg s file
                = Some (Inr (s', case map_of (dependencyGraph s) file of
                                   None \<Rightarrow> []
                                 | Some vx \<Rightarrow> filter (\<lambda>f. f \<notin> set (entrypoints cfg))
                                                (vertex_to vx)))
              \<and> set (case map_of (dependencyGraph s) file of
                        None \<Rightarrow> []
                      | Some vx \<Rightarrow> filter (\<lambda>f. f \<notin> set (entrypoints cfg)) (vertex_to vx))
                = (case map_of (dependencyGraph s) file of
                     None \<Rightarrow> {}
                   | Some vx \<Rightarrow> set (vertex_to vx) - set (entrypoints cfg))"
  using assms
  by (auto simp: runTask_def taskBegin_def taskEnd_def split: option.splits)

theorem C3_edit_enqueues_imported_modules_witness:
  "[RemovedExport ''lib.ts'' 25 ''dead''] \<noteq> [] \<and> recursive keepConfig
   \<and> fileService_exists (fileService (initialState libFiles libGraph)) ''lib.ts''
   \<and> map_option (map_sum id snd)
        (runTask (processFile libEnv keepConfig) keepConfig (initialState libFiles libGraph)
           ''lib.ts'')
       = Some (Inr [''dep.ts''])"
proof -
  let ?s = "initialState libFiles libGraph"
  have r: "recursive keepConfig" by (simp add: keepConfig_def)
  have e: "fileService_exists (fileService ?s) ''lib.ts''"
    by (simp add: initialState_def libFiles_def fileService_exists_def)
  have p: "processFile libEnv keepConfig ''lib.ts'' (dependencyGraph ?s) (fileService ?s)
           = Some (Inr (OpEdit ''export function used(){} function dead(){}''
                          [RemovedExport ''lib.ts'' 25 ''dead'']))"
    by (simp add: initialState_def lib_result)
  have v: "map_of (dependencyGraph ?s) ''lib.ts'' = Some libVertex"
    by (simp add: initialState_def libGraph_def libVertex_def)
  have n: "[RemovedExport ''lib.ts'' 25 ''dead''] \<noteq> []" by simp
  from C3_edit_enqueues_imported_modules [where fn = "processFile libEnv keepConfig",
      OF n r e p] r e
  show ?thesis by (auto simp: v libVertex_def keepConfig_def)
qed

text \<open>
  The claim as stated names the importers: in the library project \<^verbatim>\<open>lib.ts\<close> is
  imported by \<^verbatim>\<open>main.ts\<close> (an entrypoint) and \<^verbatim>\<open>tool.ts\<close> and imports
  \<^verbatim>\<open>dep.ts\<close>; the edit that removes \<^verbatim>\<open>dead\<close> enqueues \<^verbatim>\<open>dep.ts\<close>, not
  \<^verbatim>\<open>tool.ts\<close>.
\<close>

theorem C3_importers_counterexample:
  "recursive keepConfig
   \<and> processFile libEnv keepConfig ''lib.ts'' libGraph libFiles
       = Some (Inr (OpEdit ''export function used(){} function dead(){}''
                      [RemovedExport ''lib.ts'' 25 ''dead'']))
   \<and> map_of libGraph ''lib.ts'' = Some libVertex
   \<and> map_option (map_sum id snd)
        (runTask (processFile libEnv keepConfig) keepConfig (initialState libFiles libGraph)
           ''lib.ts'')
       = Some (Inr [''dep.ts''])
   \<and> set [''dep.ts''] \<noteq> set (vertex_from libVertex) - set (entrypoints keepConfig)"
  by (simp add: runTask_def taskBegin_def taskEnd_def initialState_def lib_result
        fileService_exists_def)
     (auto simp: libFiles_def libGraph_def libVertex_def keepConfig_def)

subsection \<open>Discarded tasks\<close>

text \<open>
  Claim C5, as amended. At its start the callback tests that the module of the task is in
  the store; when it is not, the task changes neither the store nor the graph and
  enqueues nothing. After the first suspension, and again immediately after the analyzer
  returns, the callback tests the abort signal of the task (it does not look at the store
  again); when the signal is aborted at either test, the task changes nothing and
  enqueues nothing.
\<close>

theorem C5_discarded_task_is_noop:
  "(\<not> fileService_exists (fileService s) file
      \<longrightarrow> taskBegin s file aborted = None \<and> runTask fn cfg s file = Some (Inr (s, [])))
   \<and> (aborted
      \<longrightarrow> taskBegin s file aborted = None
          \<and> taskEnd cfg s file vertex aborted result = (s, []))"
  by (simp add: taskBegin_def taskEnd_def runTask_def)

theorem C5_discarded_task_is_noop_witness:
  "\<not> fileService_exists (fileService libGoneState) ''lib.ts''
   \<and> runTask (processFile libEnv keepConfig) keepConfig libGoneState ''lib.ts''
       = Some (Inr (libGoneState, []))
   \<and> taskEnd keepConfig libGoneState ''lib.ts'' (Some libVertex) True
        (OpEdit ''export function used(){} function dead(){}''
           [RemovedExport ''lib.ts'' 25 ''dead''])
       = (libGoneState, [])"
proof -
  have g: "\<not> fileService_exists (fileService libGoneState) ''lib.ts''"
    by (simp add: libGoneState_def libFiles_def fileService_exists_def fileService_delete_def)
  from C5_discarded_task_is_noop [of libGoneState "''lib.ts''" False
      "processFile libEnv keepConfig" keepConfig]
    C5_discarded_task_is_noop [of libGoneState "''lib.ts''" True
      "processFile libEnv keepConfig" keepConfig "Some libVertex"
      "OpEdit ''export function used(){} function dead(){}''
         [RemovedExport ''lib.ts'' 25 ''dead'']"] g
  show ?thesis by simp
qed

text \<open>
  The claim as stated has the second test look at the store: with \<^verbatim>\<open>lib.ts\<close> gone
  from the store when the analyzer returns and the signal not aborted, the edit is
  applied all the same, the file is stored again and \<^verbatim>\<open>dep.ts\<close> is enqueued.
\<close>

theorem C5_second_check_counterexample:
  "\<not> fileService_exists (fileService libGoneState) ''lib.ts''
   \<and> fileService (fst (taskEnd keepConfig libGoneState ''lib.ts'' (Some libVertex) False
        (OpEdit ''export function used(){} function dead(){}''
           [RemovedExport ''lib.ts'' 25 ''dead''])))
       = [(''main.ts'', ''import lib, tool''), (''tool.ts'', ''import lib''),
          (''dep.ts'', ''export const d = 1''),
          (''lib.ts'', ''export function used(){} function dead(){}'')]
   \<and> snd (taskEnd keepConfig libGoneState ''lib.ts'' (Some libVertex) False
        (OpEdit ''export function used(){} function dead(){}''
           [RemovedExport ''lib.ts'' 25 ''dead'']))
       = [''dep.ts'']"
  by (simp add: taskEnd_def libGoneState_def libFiles_def fileService_exists_def
      fileService_delete_def fileService_set_def libVertex_def keepConfig_def)

subsection \<open>The wildcard usage\<close>




lemma cleanupEntry_list:
  "wholeReexportsToBeDeleted (cleanupEntry env s item) = wholeReexportsToBeDeleted s"
  by (simp add: cleanupEntry_cases split: option.splits)











subsection \<open>The number of task executions\<close>


































end
